theory Spec2Isabelle
  imports Main
begin

section \<open>Values, exceptions and outcomes\<close>

text \<open>
  The durable buffer of \<^verbatim>\<open>receptor/buffers/file.py\<close> is embedded as state-passing
  functions over a record. Exceptions are values, a coroutine that parks on an
  \<^verbatim>\<open>asyncio\<close> primitive yields \<open>Suspends\<close>, and everything the code reads from its
  environment (the clock, the uuid generator, the disk and its faults) is a field of the
  state.
\<close>

datatype exn =
    FileNotFoundError | FileExistsError | OSError | UnicodeDecodeError | JSONDecodeError
  | TypeError | KeyError | AttributeError | OtherException

text \<open>
  The values a descriptor field can hold: \<open>PDatetime\<close> counts microseconds, the
  resolution of \<^verbatim>\<open>datetime\<close>. An item is a Python dict, kept as an association list.
\<close>

datatype pyval = PNone | PStr string | PDatetime int

type_synonym item = "(string \<times> pyval) list"

text \<open>\<^verbatim>\<open>framed_message\<close> is either \<^verbatim>\<open>bytes\<close> or an iterable of chunks.\<close>

datatype frame = Bytes string | Chunks "string list"

datatype wait = WaitReady | WaitQueue | WaitDirty | WaitLock | WaitSleep

datatype 'a outcome = Returns 'a | Raises exn | Suspends wait

datatype task = StartManifest | ManifestWriter

datatype level = Debug | Info | Error

datatype log_entry =
    FailedDecode string
  | UnknownDecodeFailure string
  | BadItem item
  | Expiring pyval
  | CantRemove string
  | FailedWrite string

fun level_of :: "log_entry \<Rightarrow> level" where
  "level_of (FailedDecode d) = Error"
| "level_of (UnknownDecodeFailure d) = Error"
| "level_of (BadItem i) = Debug"
| "level_of (Expiring p) = Info"
| "level_of (CantRemove p) = Info"
| "level_of (FailedWrite p) = Error"

section \<open>The environment\<close>

text \<open>
  A fault makes an access to a path fail: \<open>Denied\<close> fails every open and remove,
  \<open>ReadFault\<close> fails the read after a successful open, \<open>WriteFault n\<close> fails the write
  after \<open>n\<close> bytes have reached the file.
\<close>

datatype io_fault = Denied | ReadFault | WriteFault nat

text \<open>
  A file holds bytes. A file opened in text mode is decoded with the encoding of the
  locale; a Python \<^verbatim>\<open>str\<close> is kept as its bytes in that encoding, so that only bytes
  the encoding accepts are text.
\<close>

datatype encoding = ASCII | Latin1 | UTF8

definition cont :: "nat \<Rightarrow> bool" where
  "cont b = (128 \<le> b \<and> b \<le> 191)"

fun utf8_valid :: "nat list \<Rightarrow> bool" where
  "utf8_valid [] = True"
| "utf8_valid (b # bs) =
     (if b < 128 then utf8_valid bs
      else if 194 \<le> b \<and> b \<le> 223 then
        (case bs of
           c1 # r \<Rightarrow> cont c1 \<and> utf8_valid r
         | _ \<Rightarrow> False)
      else if 224 \<le> b \<and> b \<le> 239 then
        (case bs of
           c1 # c2 # r \<Rightarrow>
             (if b = 224 then 160 \<le> c1 \<and> c1 \<le> 191
              else if b = 237 then 128 \<le> c1 \<and> c1 \<le> 159
              else cont c1) \<and>
             cont c2 \<and> utf8_valid r
         | _ \<Rightarrow> False)
      else if 240 \<le> b \<and> b \<le> 244 then
        (case bs of
           c1 # c2 # c3 # r \<Rightarrow>
             (if b = 240 then 144 \<le> c1 \<and> c1 \<le> 191
              else if b = 244 then 128 \<le> c1 \<and> c1 \<le> 143
              else cont c1) \<and>
             cont c2 \<and> cont c3 \<and> utf8_valid r
         | _ \<Rightarrow> False)
      else False)"

definition decodable :: "encoding \<Rightarrow> string \<Rightarrow> bool" where
  "decodable enc data =
     (case enc of
        ASCII \<Rightarrow> list_all (\<lambda>c. (of_char c :: nat) < 128) data
      | Latin1 \<Rightarrow> True
      | UTF8 \<Rightarrow> utf8_valid (map of_char data))"

text \<open>Reading in text mode turns the line ends CR LF and CR into LF.\<close>

fun universal_newlines :: "string \<Rightarrow> string" where
  "universal_newlines [] = []"
| "universal_newlines [c] = (if c = CHR 0x0D then [CHR 0x0A] else [c])"
| "universal_newlines (c # d # r) =
     (if c = CHR 0x0D \<and> d = CHR 0x0A then CHR 0x0A # universal_newlines r
      else if c = CHR 0x0D then CHR 0x0A # universal_newlines (d # r)
      else c # universal_newlines (d # r))"

record world =
  files :: "string \<rightharpoonup> string"
  dirs :: "string list"
  encoding :: encoding
  fault :: "string \<Rightarrow> io_fault option"
  clock :: "nat \<Rightarrow> int"
  ticks :: nat
  uuids :: "nat \<Rightarrow> string"
  uuid_n :: nat
  logged :: "log_entry list"
  tasks :: "task list"

text \<open>
  The manifest codec is the module \<^verbatim>\<open>serde\<close>, imported as \<^verbatim>\<open>json\<close>; it is a
  parameter of the operations that use it.
\<close>

record codec =
  dumps :: "item list \<Rightarrow> exn + string"
  loads :: "string \<Rightarrow> exn + item list"

section \<open>The buffer object\<close>

record buffer = world +
  base_path :: string
  message_path :: string
  manifest_path :: string
  q :: "item list"
  manifest_locked :: bool
  manifest_dirty :: bool
  manifest_clean :: bool
  ready :: bool

text \<open>\<^verbatim>\<open>os.path.join\<close> of two components (posix).\<close>

definition path_join :: "string \<Rightarrow> string \<Rightarrow> string" where
  "path_join a b =
     (if b \<noteq> [] \<and> hd b = CHR ''/'' then b
      else if a = [] \<or> last a = CHR ''/'' then a @ b
      else a @ ''/'' @ b)"

text \<open>
  \<^verbatim>\<open>__init__\<close>: \<open>dir\<close> is the directory after \<^verbatim>\<open>os.path.expanduser\<close>. The constructor
  creates the start-up task.
\<close>

definition init :: "string \<Rightarrow> string \<Rightarrow> world \<Rightarrow> buffer" where
  "init dir key w =
     \<lparr> files = files w, dirs = dirs w, encoding = encoding w, fault = fault w, clock = clock w, ticks = ticks w,
       uuids = uuids w, uuid_n = uuid_n w, logged = logged w,
       tasks = tasks w @ [StartManifest],
       base_path = dir,
       message_path = path_join dir ''messages'',
       manifest_path = path_join dir (''manifest-'' @ key),
       q = [],
       manifest_locked = False,
       manifest_dirty = False,
       manifest_clean = False,
       ready = False \<rparr>"

text \<open>
  The names bound on an instance: the attributes assigned by \<^verbatim>\<open>__init__\<close> and the
  methods of the class. Looking up any other name on \<^verbatim>\<open>self\<close> raises
  \<^verbatim>\<open>AttributeError\<close>.
\<close>

definition attrs :: "string list" where
  "attrs =
     [''_base_path'', ''_message_path'', ''_manifest_path'', ''_loop'', ''q'', ''deferrer'',
      ''_manifest_lock'', ''_manifest_dirty'', ''_manifest_clean'', ''_write_time'', ''ready'',
      ''clean'', ''dirty'', ''start_manifest'', ''put'', ''put_ident'', ''get'',
      ''_read_manifest'', ''_remove_path'', ''is_expired'', ''expire'', ''expire_all'',
      ''manifest_writer'']"

definition clean :: "buffer \<Rightarrow> buffer" where
  "clean s = s\<lparr>manifest_dirty := False, manifest_clean := True\<rparr>"

definition dirty :: "buffer \<Rightarrow> buffer" where
  "dirty s = s\<lparr>manifest_dirty := True, manifest_clean := False\<rparr>"

definition log_add :: "log_entry \<Rightarrow> buffer \<Rightarrow> buffer" where
  "log_add e s = s\<lparr>logged := logged s @ [e]\<rparr>"

definition utcnow :: "buffer \<Rightarrow> int \<times> buffer" where
  "utcnow s = (clock s (ticks s), s\<lparr>ticks := Suc (ticks s)\<rparr>)"

definition uuid4 :: "buffer \<Rightarrow> string \<times> buffer" where
  "uuid4 s = (uuids s (uuid_n s), s\<lparr>uuid_n := Suc (uuid_n s)\<rparr>)"

definition minutes :: "int \<Rightarrow> int" where
  "minutes n = n * 60000000"

text \<open>\<^verbatim>\<open>item[key]\<close>\<close>

definition getitem :: "item \<Rightarrow> string \<Rightarrow> exn + pyval" where
  "getitem item k = (case map_of item k of None \<Rightarrow> Inl KeyError | Some v \<Rightarrow> Inr v)"

text \<open>\<^verbatim>\<open>await self.q.put(item)\<close> on an unbounded \<^verbatim>\<open>asyncio.Queue\<close>: never waits.\<close>

definition q_put :: "item \<Rightarrow> buffer \<Rightarrow> buffer" where
  "q_put item s = s\<lparr>q := q s @ [item]\<rparr>"

text \<open>
  Calling an \<^verbatim>\<open>async def\<close> method without \<^verbatim>\<open>await\<close> builds a coroutine object and
  runs none of its body.
\<close>

definition unawaited :: "(buffer \<Rightarrow> 'a \<times> buffer) \<Rightarrow> buffer \<Rightarrow> buffer" where
  "unawaited c s = s"

section \<open>File operations\<close>

text \<open>\<^verbatim>\<open>os.path.dirname\<close> (posix).\<close>

definition dirname :: "string \<Rightarrow> string" where
  "dirname p =
     (let head = rev (dropWhile (\<lambda>c. c \<noteq> CHR ''/'') (rev p)) in
      if head \<noteq> [] \<and> filter (\<lambda>c. c \<noteq> CHR ''/'') head \<noteq> []
      then rev (dropWhile (\<lambda>c. c = CHR ''/'') (rev head))
      else head)"

text \<open>
  The directories that exist are those of \<open>dirs\<close>, the root and the current directory
  (the empty \<^verbatim>\<open>dirname\<close> of a bare file name).
\<close>

definition dir_exists :: "string \<Rightarrow> buffer \<Rightarrow> bool" where
  "dir_exists d s = (d = [] \<or> d = ''/'' \<or> d \<in> set (dirs s))"

text \<open>
  Modelled from the spec: the module \<^verbatim>\<open>fileio\<close> (\<^verbatim>\<open>fileio.File\<close>,
  \<^verbatim>\<open>fileio.Deferrer\<close>) is not among the sources. Section 6 gives its contract: a unit of
  blocking work (open, write and close a file; open, read and close a manifest; delete a
  file if it exists) completes or fails, and the failure reaches the awaiting caller.
  Opening for writing creates or truncates the file; it needs the directory of the file.
\<close>

definition open_w :: "string \<Rightarrow> buffer \<Rightarrow> (exn + unit) \<times> buffer" where
  "open_w path s =
     (if dir_exists (dirname path) s then
        (case fault s path of
           Some Denied \<Rightarrow> (Inl OSError, s)
         | _ \<Rightarrow> (Inr (), s\<lparr>files := (files s)(path \<mapsto> [])\<rparr>))
      else (Inl FileNotFoundError, s))"

definition file_write :: "string \<Rightarrow> string \<Rightarrow> buffer \<Rightarrow> (exn + unit) \<times> buffer" where
  "file_write path data s =
     (case fault s path of
        Some (WriteFault n) \<Rightarrow> (Inl OSError, s\<lparr>files := (files s)(path \<mapsto> take n data)\<rparr>)
      | _ \<Rightarrow> (Inr (), s\<lparr>files := (files s)(path \<mapsto> data)\<rparr>))"

text \<open>
  Opening with mode \<^verbatim>\<open>"r"\<close> and reading the whole file as text: bytes that the
  encoding of the locale does not accept raise \<^verbatim>\<open>UnicodeDecodeError\<close>.
\<close>

definition file_read :: "string \<Rightarrow> buffer \<Rightarrow> exn + string" where
  "file_read path s =
     (case files s path of
        None \<Rightarrow> Inl FileNotFoundError
      | Some data \<Rightarrow>
          (case fault s path of
             Some Denied \<Rightarrow> Inl OSError
           | Some ReadFault \<Rightarrow> Inl OSError
           | _ \<Rightarrow>
               (if decodable (encoding s) data then Inr (universal_newlines data)
                else Inl UnicodeDecodeError)))"

text \<open>\<^verbatim>\<open>os.mkdir\<close>\<close>

definition mkdir :: "string \<Rightarrow> buffer \<Rightarrow> (exn + unit) \<times> buffer" where
  "mkdir d s =
     (if dir_exists d s then (Inl FileExistsError, s)
      else if dir_exists (dirname d) s then
        (if fault s d = Some Denied then (Inl OSError, s)
         else (Inr (), s\<lparr>dirs := d # dirs s\<rparr>))
      else (Inl FileNotFoundError, s))"

text \<open>
  The directories above a normalised path, outermost first: its prefixes up to each
  inner \<^verbatim>\<open>/\<close>.
\<close>

definition ancestors :: "string \<Rightarrow> string list" where
  "ancestors p = map (\<lambda>n. take n p) (filter (\<lambda>n. p ! n = CHR ''/'') [1..<length p])"

fun mk_missing :: "string list \<Rightarrow> buffer \<Rightarrow> (exn + unit) \<times> buffer" where
  "mk_missing [] s = (Inr (), s)"
| "mk_missing (d # ds) s =
     (if dir_exists d s then mk_missing ds s
      else
        (case mkdir d s of
           (Inl e, s1) \<Rightarrow> (Inl e, s1)
         | (Inr u, s1) \<Rightarrow> mk_missing ds s1))"

text \<open>
  \<^verbatim>\<open>os.makedirs(path, mode=0o700)\<close>: the missing directories above the path are made
  first, then the path itself, which must not exist yet.
\<close>

definition makedirs :: "string \<Rightarrow> buffer \<Rightarrow> (exn + unit) \<times> buffer" where
  "makedirs path s =
     (case mk_missing (ancestors path) s of
        (Inl e, s1) \<Rightarrow> (Inl e, s1)
      | (Inr u, s1) \<Rightarrow> mkdir path s1)"

fun frame_bytes :: "frame \<Rightarrow> string" where
  "frame_bytes (Bytes b) = b"
| "frame_bytes (Chunks cs) = concat cs"

text \<open>The closure \<^verbatim>\<open>_f\<close> of \<^verbatim>\<open>put\<close>, run by \<^verbatim>\<open>self.deferrer.defer\<close>.\<close>

definition write_payload :: "string \<Rightarrow> frame \<Rightarrow> buffer \<Rightarrow> (exn + unit) \<times> buffer" where
  "write_payload path framed_message s =
     (case open_w path s of
        (Inl e, s1) \<Rightarrow> (Inl e, s1)
      | (Inr u, s1) \<Rightarrow> file_write path (frame_bytes framed_message) s1)"

section \<open>The methods of DurableBuffer\<close>

definition remove_path :: "pyval \<Rightarrow> buffer \<Rightarrow> (exn + unit) \<times> buffer" where
  "remove_path p s =
     (case p of
        PStr path \<Rightarrow>
          (if path \<in> dom (files s) then
             (if fault s path = Some Denied then (Inl OSError, s)
              else (Inr (), s\<lparr>files := (files s)(path := None)\<rparr>))
           else (Inr (), log_add (CantRemove path) s))
      | _ \<Rightarrow> (Inl TypeError, s))"

definition is_expired :: "item \<Rightarrow> buffer \<Rightarrow> (exn + bool) \<times> buffer" where
  "is_expired item s =
     (case getitem item ''expire_time'' of
        Inl e \<Rightarrow> (Inl e, s)
      | Inr v \<Rightarrow>
          (case utcnow s of
             (now, s1) \<Rightarrow>
               (case v of
                  PDatetime t \<Rightarrow> (Inr (t < now), s1)
                | _ \<Rightarrow> (Inl TypeError, s1))))"

text \<open>
  \<^verbatim>\<open>expire\<close> logs and then evaluates \<^verbatim>\<open>self._deferrer\<close>; the constructor binds
  \<^verbatim>\<open>self.deferrer\<close>.
\<close>

definition expire :: "item \<Rightarrow> buffer \<Rightarrow> (exn + unit) \<times> buffer" where
  "expire item s =
     (case getitem item ''path'' of
        Inl e \<Rightarrow> (Inl e, s)
      | Inr p \<Rightarrow>
          (let s1 = log_add (Expiring p) s in
           if ''_deferrer'' \<in> set attrs then
             (case getitem item ''path'' of
                Inl e \<Rightarrow> (Inl e, s1)
              | Inr p' \<Rightarrow> remove_path p' s1)
           else (Inl AttributeError, s1)))"

definition put_ident :: "item \<Rightarrow> buffer \<Rightarrow> unit outcome \<times> buffer" where
  "put_ident ident s = (Returns (), dirty (q_put ident s))"

definition put :: "frame \<Rightarrow> buffer \<Rightarrow> unit outcome \<times> buffer" where
  "put framed_message s =
     (if \<not> ready s then (Suspends WaitReady, s)
      else
        (case uuid4 s of
           (u, s1) \<Rightarrow>
             (let path = path_join (message_path s1) u in
              case utcnow s1 of
                (now, s2) \<Rightarrow>
                  (let item = [(''path'', PStr path),
                               (''expire_time'', PDatetime (now + minutes 5))] in
                   case write_payload path framed_message s2 of
                     (Inl e, s3) \<Rightarrow> (Raises e, s3)
                   | (Inr u, s3) \<Rightarrow> put_ident item s3))))"

text \<open>
  The \<^verbatim>\<open>while True\<close> loop of \<^verbatim>\<open>get\<close>. Each pass pops the head of the queue, so the
  length of the queue is the measure; on an empty queue \<^verbatim>\<open>self.q.get()\<close> parks the
  caller.
\<close>

function get_loop :: "buffer \<Rightarrow> item outcome \<times> buffer" where
  "get_loop s =
     (case q s of
        [] \<Rightarrow> (Suspends WaitQueue, s)
      | item # rest \<Rightarrow>
          (case is_expired item (dirty (s\<lparr>q := rest\<rparr>)) of
             (Inr b, s2) \<Rightarrow>
               (if b then get_loop (unawaited (expire item) s2)
                else (Returns item, s2))
           | (Inl e, s2) \<Rightarrow>
               (if e = TypeError \<or> e = KeyError then get_loop (log_add (BadItem item) s2)
                else (Raises e, s2))))"
  by pat_completeness auto

termination
proof (relation "measure (\<lambda>s. length (q s))")
  show "wf (measure (\<lambda>s. length (q s)))" by simp
next
  fix s :: buffer and item rest r s2 b
  assume a: "q s = item # rest" "(r, s2) = is_expired item (dirty (s\<lparr>q := rest\<rparr>))"
  have "q s2 = rest"
    using a(2) by (auto simp: is_expired_def utcnow_def dirty_def split: sum.splits pyval.splits)
  then show "(unawaited (expire item) s2, s) \<in> measure (\<lambda>s. length (q s))"
    using a(1) by (simp add: unawaited_def)
next
  fix s :: buffer and item rest r s2 e
  assume a: "q s = item # rest" "(r, s2) = is_expired item (dirty (s\<lparr>q := rest\<rparr>))"
  have "q s2 = rest"
    using a(2) by (auto simp: is_expired_def utcnow_def dirty_def split: sum.splits pyval.splits)
  then show "(log_add (BadItem item) s2, s) \<in> measure (\<lambda>s. length (q s))"
    using a(1) by (simp add: log_add_def)
qed

declare get_loop.simps [simp del]

definition get :: "buffer \<Rightarrow> item outcome \<times> buffer" where
  "get s = (if \<not> ready s then (Suspends WaitReady, s) else get_loop s)"

text \<open>
  \<^verbatim>\<open>finally: return v\<close> discards whatever the \<^verbatim>\<open>try\<close> statement was about to do
  (a pending \<^verbatim>\<open>return\<close>, falling off the end, a pending exception) and returns
  \<open>v\<close>; the effects already made stay.
\<close>

definition finally_return :: "'a \<Rightarrow> 'b \<times> buffer \<Rightarrow> 'a outcome \<times> buffer" where
  "finally_return v r = (Returns v, snd r)"

text \<open>
  \<^verbatim>\<open>_read_manifest\<close>. In the inner \<^verbatim>\<open>try\<close> the result \<open>Some v\<close> is a pending
  \<^verbatim>\<open>return v\<close> and \<open>None\<close> is a handler that falls off its end.
\<close>

definition read_manifest :: "codec \<Rightarrow> buffer \<Rightarrow> item list outcome \<times> buffer" where
  "read_manifest c s =
     (case file_read (manifest_path s) s of
        Inl e \<Rightarrow> (if e = FileNotFoundError then (Returns [], s) else (Raises e, s))
      | Inr data \<Rightarrow>
          finally_return []
            (case loads c data of
               Inr v \<Rightarrow> (Some v, s)
             | Inl e \<Rightarrow>
                 (if e = JSONDecodeError then (None, log_add (FailedDecode data) s)
                  else (None, log_add (UnknownDecodeFailure data) s))))"

definition create_task :: "task \<Rightarrow> buffer \<Rightarrow> buffer" where
  "create_task t s = s\<lparr>tasks := tasks s @ [t]\<rparr>"

text \<open>\<^verbatim>\<open>start_manifest\<close>; whatever \<^verbatim>\<open>os.makedirs\<close> raises is passed over.\<close>

definition start_manifest :: "codec \<Rightarrow> buffer \<Rightarrow> unit outcome \<times> buffer" where
  "start_manifest c s =
     (case makedirs (message_path s) s of
        (r, s1) \<Rightarrow>
          (case read_manifest c s1 of
             (Returns loaded_items, s2) \<Rightarrow>
               (Returns (), create_task ManifestWriter ((fold q_put loaded_items s2)\<lparr>ready := True\<rparr>))
           | (Raises e, s2) \<Rightarrow> (Raises e, s2)
           | (Suspends w, s2) \<Rightarrow> (Suspends w, s2)))"

text \<open>The \<^verbatim>\<open>while old.qsize() > 0\<close> loop of \<^verbatim>\<open>expire_all\<close>, over the old queue.\<close>

fun expire_all_loop :: "item list \<Rightarrow> buffer \<Rightarrow> (exn + unit) \<times> buffer" where
  "expire_all_loop [] s = (Inr (), s)"
| "expire_all_loop (item # old) s =
     (case is_expired item s of
        (Inl e, s1) \<Rightarrow> (Inl e, s1)
      | (Inr b, s1) \<Rightarrow>
          (if b then
             (case expire item s1 of
                (Inl e, s2) \<Rightarrow> (Inl e, s2)
              | (Inr u, s2) \<Rightarrow> expire_all_loop old s2)
           else expire_all_loop old (q_put item s1)))"

text \<open>
  \<^verbatim>\<open>expire_all\<close>; \<^verbatim>\<open>async with self._manifest_lock\<close> releases the lock on every way
  out of its body.
\<close>

definition expire_all :: "buffer \<Rightarrow> unit outcome \<times> buffer" where
  "expire_all s =
     (if manifest_locked s then (Suspends WaitLock, s)
      else
        (case expire_all_loop (q s) (s\<lparr>manifest_locked := True, q := []\<rparr>) of
           (Inl e, s1) \<Rightarrow> (Raises e, s1\<lparr>manifest_locked := False\<rparr>)
         | (Inr u, s1) \<Rightarrow> (Returns (), (dirty s1)\<lparr>manifest_locked := False\<rparr>)))"

text \<open>
  The body of the \<^verbatim>\<open>try\<close> in \<^verbatim>\<open>manifest_writer\<close> up to the call of \<^verbatim>\<open>clean\<close>:
  the file is opened for writing (and so truncated) before the queue is serialised.
\<close>

definition manifest_flush :: "codec \<Rightarrow> buffer \<Rightarrow> (exn + unit) \<times> buffer" where
  "manifest_flush c s =
     (case open_w (manifest_path s) s of
        (Inl e, s1) \<Rightarrow> (Inl e, s1)
      | (Inr u, s1) \<Rightarrow>
          (case dumps c (q s1) of
             Inl e \<Rightarrow> (Inl e, s1)
           | Inr data \<Rightarrow> file_write (manifest_path s1) data s1))"

text \<open>
  One pass of the \<^verbatim>\<open>while True\<close> loop of \<^verbatim>\<open>manifest_writer\<close>, run without another
  task in between. It ends where the task parks: on the dirty event, on the lock, or in
  \<^verbatim>\<open>asyncio.sleep(write_time)\<close> after an attempt to write.
\<close>

definition manifest_writer_pass :: "codec \<Rightarrow> buffer \<Rightarrow> unit outcome \<times> buffer" where
  "manifest_writer_pass c s =
     (if \<not> manifest_dirty s then (Suspends WaitDirty, s)
      else if manifest_locked s then (Suspends WaitLock, s)
      else
        (case manifest_flush c (s\<lparr>manifest_locked := True\<rparr>) of
           (Inr u, s1) \<Rightarrow> (Suspends WaitSleep, (clean s1)\<lparr>manifest_locked := False\<rparr>)
         | (Inl e, s1) \<Rightarrow>
             (Suspends WaitSleep,
              (log_add (FailedWrite (manifest_path s1)) s1)\<lparr>manifest_locked := False\<rparr>)))"


section \<open>Sequences of calls\<close>

text \<open>Calls made one after the other on the same buffer, with their outcomes.\<close>

fun put_seq :: "frame list \<Rightarrow> buffer \<Rightarrow> unit outcome list \<times> buffer" where
  "put_seq [] s = ([], s)"
| "put_seq (m # ms) s =
     (case put m s of (r, s1) \<Rightarrow> (case put_seq ms s1 of (rs, s2) \<Rightarrow> (r # rs, s2)))"

fun get_seq :: "nat \<Rightarrow> buffer \<Rightarrow> item outcome list \<times> buffer" where
  "get_seq 0 s = ([], s)"
| "get_seq (Suc n) s =
     (case get s of (r, s1) \<Rightarrow> (case get_seq n s1 of (rs, s2) \<Rightarrow> (r # rs, s2)))"

text \<open>The descriptor that \<^verbatim>\<open>put\<close> builds from the uuid and the clock reading it draws.\<close>

definition descriptor :: "string \<Rightarrow> string \<Rightarrow> int \<Rightarrow> item" where
  "descriptor dir u now =
     [(''path'', PStr (path_join dir u)), (''expire_time'', PDatetime (now + minutes 5))]"

section \<open>Sample values\<close>

text \<open>A small world, codec and queue contents on which the results below are run.\<close>

definition sample_world :: world where
  "sample_world =
     \<lparr> files = Map.empty, dirs = [''/b''], encoding = UTF8, fault = (\<lambda>p. None), clock = (\<lambda>n. 1000 + int n),
       ticks = 0, uuids = (\<lambda>n. replicate (Suc n) CHR ''u''), uuid_n = 0, logged = [],
       tasks = [] \<rparr>"

definition stored_item :: item where
  "stored_item = [(''path'', PStr ''/b/messages/a''), (''expire_time'', PStr ''2020-01-01'')]"

definition sample_codec :: codec where
  "sample_codec =
     \<lparr> dumps = (\<lambda>items. Inr (concat (map (\<lambda>i. case map_of i ''path'' of
                                                  Some (PStr p) \<Rightarrow> p @ '';''
                                                | _ \<Rightarrow> ''?;'') items))),
       loads = (\<lambda>d. if d = ''/b/messages/a;'' then Inr [stored_item] else Inl JSONDecodeError) \<rparr>"

definition sample_buffer :: buffer where
  "sample_buffer = init ''/b'' ''k'' sample_world"

definition old_item :: item where
  "old_item = [(''path'', PStr ''/b/messages/old''), (''expire_time'', PDatetime 5)]"

definition live_item :: item where
  "live_item = [(''path'', PStr ''/b/messages/new''), (''expire_time'', PDatetime 5000)]"

definition first_item :: item where
  "first_item = [(''path'', PStr ''/b/messages/first''), (''expire_time'', PDatetime 6000)]"

definition running_buffer :: "item list \<Rightarrow> buffer" where
  "running_buffer items =
     sample_buffer\<lparr>ready := True, q := items, dirs := [''/b/messages'', ''/b''],
                    files := [''/b/messages/old'' \<mapsto> ''x'', ''/b/messages/new'' \<mapsto> ''y'',
                              ''/b/messages/first'' \<mapsto> ''z'']\<rparr>"

section \<open>Start-up\<close>

lemma read_manifest_q: "q (snd (read_manifest c s)) = q s"
  by (simp add: read_manifest_def finally_return_def log_add_def split: sum.splits)

lemma read_manifest_loaded: "read_manifest c s = (Returns xs, s') \<Longrightarrow> xs = []"
  by (auto simp: read_manifest_def finally_return_def split: sum.splits if_splits)

lemma mkdir_only_dirs: "\<exists>ds. snd (mkdir d s) = s\<lparr>dirs := ds\<rparr>"
proof (cases "fst (mkdir d s)")
  case (Inl e)
  then have "snd (mkdir d s) = s\<lparr>dirs := dirs s\<rparr>"
    by (auto simp: mkdir_def split: if_splits)
  then show ?thesis by blast
next
  case (Inr u)
  then have "snd (mkdir d s) = s\<lparr>dirs := d # dirs s\<rparr>"
    by (auto simp: mkdir_def split: if_splits)
  then show ?thesis by blast
qed

lemma mk_missing_only_dirs: "\<exists>ds. snd (mk_missing xs s) = s\<lparr>dirs := ds\<rparr>"
proof (induction xs arbitrary: s)
  case Nil
  have "snd (mk_missing [] s) = s\<lparr>dirs := dirs s\<rparr>" by simp
  then show ?case by blast
next
  case (Cons d xs)
  show ?case
  proof (cases "dir_exists d s")
    case True
    then show ?thesis using Cons.IH [of s] by simp
  next
    case False
    obtain r s1 where m: "mkdir d s = (r, s1)" by (cases "mkdir d s")
    obtain ds where d1: "s1 = s\<lparr>dirs := ds\<rparr>" using mkdir_only_dirs [of d s] m by auto
    show ?thesis
    proof (cases r)
      case (Inl e)
      then show ?thesis using False m d1 by auto
    next
      case (Inr u)
      obtain ds' where "snd (mk_missing xs s1) = s1\<lparr>dirs := ds'\<rparr>"
        using Cons.IH [of s1] by blast
      then have "snd (mk_missing (d # xs) s) = s\<lparr>dirs := ds'\<rparr>"
        using False m Inr d1 by simp
      then show ?thesis by blast
    qed
  qed
qed

lemma makedirs_only_dirs: "\<exists>ds. snd (makedirs p s) = s\<lparr>dirs := ds\<rparr>"
proof -
  obtain r s1 where m: "mk_missing (ancestors p) s = (r, s1)"
    by (cases "mk_missing (ancestors p) s")
  obtain ds where d1: "s1 = s\<lparr>dirs := ds\<rparr>"
    using mk_missing_only_dirs [of "ancestors p" s] m by auto
  show ?thesis
  proof (cases r)
    case (Inl e)
    then show ?thesis using m d1 by (auto simp: makedirs_def)
  next
    case (Inr u)
    obtain ds' where "snd (mkdir p s1) = s1\<lparr>dirs := ds'\<rparr>"
      using mkdir_only_dirs [of p s1] by blast
    then have "snd (makedirs p s) = s\<lparr>dirs := ds'\<rparr>"
      using m Inr d1 by (simp add: makedirs_def)
    then show ?thesis by blast
  qed
qed

lemma makedirs_q: "q (snd (makedirs p s)) = q s"
  using makedirs_only_dirs [of p s] by auto

lemma file_read_dirs: "file_read p (s\<lparr>dirs := ds\<rparr>) = file_read p s"
  by (simp add: file_read_def cong: option.case_cong io_fault.case_cong)

lemma start_manifest_q: "q (snd (start_manifest c s)) = q s"
proof -
  obtain r s1 where m: "makedirs (message_path s) s = (r, s1)"
    by (cases "makedirs (message_path s) s")
  obtain o2 s2 where rm: "read_manifest c s1 = (o2, s2)"
    by (cases "read_manifest c s1")
  have q1: "q s1 = q s" using makedirs_q [of "message_path s" s] m by simp
  have q2: "q s2 = q s1" using read_manifest_q [of c s1] rm by simp
  show ?thesis
  proof (cases o2)
    case (Returns xs)
    then have "xs = []" using read_manifest_loaded rm by blast
    then show ?thesis
      using m rm Returns q1 q2 by (simp add: start_manifest_def create_task_def)
  next
    case (Raises e)
    then show ?thesis using m rm q1 q2 by (simp add: start_manifest_def)
  next
    case (Suspends w)
    then show ?thesis using m rm q1 q2 by (simp add: start_manifest_def)
  qed
qed

lemma file_read_makedirs:
  "file_read (manifest_path s) (snd (makedirs p s)) = file_read (manifest_path s) s"
  using makedirs_only_dirs [of p s] file_read_dirs by auto

lemma makedirs_manifest_path: "manifest_path (snd (makedirs p s)) = manifest_path s"
  using makedirs_only_dirs [of p s] by auto

lemma start_manifest_readable:
  assumes "file_read (manifest_path s) s = Inr data"
  shows "fst (start_manifest c s) = Returns ()"
    and "ready (snd (start_manifest c s))"
    and "ManifestWriter \<in> set (tasks (snd (start_manifest c s)))"
    and "logged (snd (start_manifest c s)) =
           logged s @ (case loads c data of
                         Inr v \<Rightarrow> []
                       | Inl e \<Rightarrow> [if e = JSONDecodeError then FailedDecode data
                                   else UnknownDecodeFailure data])"
proof -
  obtain r s1 where m: "makedirs (message_path s) s = (r, s1)"
    by (cases "makedirs (message_path s) s")
  have rd: "file_read (manifest_path s1) s1 = Inr data"
    using file_read_makedirs [of s "message_path s"] makedirs_manifest_path [of "message_path s" s]
      m assms by simp
  have l1: "logged s1 = logged s" using makedirs_only_dirs [of "message_path s" s] m by auto
  show "fst (start_manifest c s) = Returns ()"
    using m rd by (simp add: start_manifest_def read_manifest_def finally_return_def)
  show "ready (snd (start_manifest c s))"
    using m rd
    by (simp add: start_manifest_def read_manifest_def finally_return_def create_task_def)
  show "ManifestWriter \<in> set (tasks (snd (start_manifest c s)))"
    using m rd
    by (simp add: start_manifest_def read_manifest_def finally_return_def create_task_def)
  show "logged (snd (start_manifest c s)) =
           logged s @ (case loads c data of
                         Inr v \<Rightarrow> []
                       | Inl e \<Rightarrow> [if e = JSONDecodeError then FailedDecode data
                                   else UnknownDecodeFailure data])"
    using m rd l1
    by (simp add: start_manifest_def read_manifest_def finally_return_def create_task_def
        log_add_def split: sum.splits)
qed

text \<open>
  C1. Start-up recovery is claimed to push every descriptor recorded in the manifest onto
  the queue. In the code \<^verbatim>\<open>_read_manifest\<close> ends in \<^verbatim>\<open>finally: return []\<close>, which
  replaces the decoded list: whenever the manifest file can be read and decodes to a list
  \<open>items\<close>, start-up completes and the queue is what it was before, with none of
  \<open>items\<close> on it.
\<close>

theorem start_manifest_recovers_nothing:
  assumes "file_read (manifest_path s) s = Inr data" and "loads c data = Inr items"
  shows "fst (start_manifest c s) = Returns () \<and> q (snd (start_manifest c s)) = q s"
  using start_manifest_readable(1) [OF assms(1)] start_manifest_q by simp

theorem start_manifest_recovers_nothing_witness:
  "file_read (manifest_path (sample_buffer\<lparr>files := [''/b/manifest-k'' \<mapsto> ''/b/messages/a;'']\<rparr>))
     (sample_buffer\<lparr>files := [''/b/manifest-k'' \<mapsto> ''/b/messages/a;'']\<rparr>) = Inr ''/b/messages/a;'' \<and>
   loads sample_codec ''/b/messages/a;'' = Inr [stored_item] \<and>
   fst (start_manifest sample_codec
          (sample_buffer\<lparr>files := [''/b/manifest-k'' \<mapsto> ''/b/messages/a;'']\<rparr>)) = Returns () \<and>
   q (snd (start_manifest sample_codec
          (sample_buffer\<lparr>files := [''/b/manifest-k'' \<mapsto> ''/b/messages/a;'']\<rparr>))) = []"
proof -
  let ?s = "sample_buffer\<lparr>files := [''/b/manifest-k'' \<mapsto> ''/b/messages/a;'']\<rparr>"
  have h1: "file_read (manifest_path ?s) ?s = Inr ''/b/messages/a;''"
    by (simp add: sample_buffer_def init_def sample_world_def path_join_def file_read_def
        decodable_def)
  have h2: "loads sample_codec ''/b/messages/a;'' = Inr [stored_item]"
    by (simp add: sample_codec_def)
  have "q ?s = []" by (simp add: sample_buffer_def init_def)
  then show ?thesis
    using start_manifest_recovers_nothing [OF h1 h2] h1 h2 by simp
qed

lemma read_manifest_env:
  "fault (snd (read_manifest c s)) = fault s \<and> uuids (snd (read_manifest c s)) = uuids s \<and>
   uuid_n (snd (read_manifest c s)) = uuid_n s \<and> clock (snd (read_manifest c s)) = clock s \<and>
   ticks (snd (read_manifest c s)) = ticks s \<and>
   message_path (snd (read_manifest c s)) = message_path s \<and>
   files (snd (read_manifest c s)) = files s \<and> dirs (snd (read_manifest c s)) = dirs s \<and>
   ready (snd (read_manifest c s)) = ready s \<and> tasks (snd (read_manifest c s)) = tasks s"
  by (simp add: read_manifest_def finally_return_def log_add_def split: sum.splits)

lemma start_manifest_env:
  "fault (snd (start_manifest c s)) = fault s \<and> uuids (snd (start_manifest c s)) = uuids s \<and>
   uuid_n (snd (start_manifest c s)) = uuid_n s \<and> clock (snd (start_manifest c s)) = clock s \<and>
   ticks (snd (start_manifest c s)) = ticks s \<and>
   message_path (snd (start_manifest c s)) = message_path s \<and>
   files (snd (start_manifest c s)) = files s \<and>
   dirs (snd (start_manifest c s)) = dirs (snd (makedirs (message_path s) s))"
proof -
  obtain r s1 where m: "makedirs (message_path s) s = (r, s1)"
    by (cases "makedirs (message_path s) s")
  obtain ds where d1: "s1 = s\<lparr>dirs := ds\<rparr>"
    using makedirs_only_dirs [of "message_path s" s] m by auto
  obtain o2 s2 where rm: "read_manifest c s1 = (o2, s2)"
    by (cases "read_manifest c s1")
  note e = read_manifest_env [of c s1, unfolded rm, simplified]
  show ?thesis
  proof (cases o2)
    case (Returns xs)
    then have "xs = []" using read_manifest_loaded rm by blast
    then show ?thesis
      using m rm Returns e d1 by (simp add: start_manifest_def create_task_def)
  next
    case (Raises ex)
    then show ?thesis using m rm e d1 by (simp add: start_manifest_def)
  next
    case (Suspends w)
    then show ?thesis using m rm e d1 by (simp add: start_manifest_def)
  qed
qed

text \<open>
  A failure of the read other than \<^verbatim>\<open>FileNotFoundError\<close> leaves \<^verbatim>\<open>_read_manifest\<close>
  and \<^verbatim>\<open>start_manifest\<close>: the ready event is not set and no writer is launched.
\<close>

lemma start_manifest_read_failure:
  assumes "file_read (manifest_path s) s = Inl e" and "e \<noteq> FileNotFoundError"
  shows "fst (start_manifest c s) = Raises e"
    and "ready (snd (start_manifest c s)) = ready s"
    and "tasks (snd (start_manifest c s)) = tasks s"
    and "logged (snd (start_manifest c s)) = logged s"
proof -
  obtain r s1 where m: "makedirs (message_path s) s = (r, s1)"
    by (cases "makedirs (message_path s) s")
  obtain ds where d1: "s1 = s\<lparr>dirs := ds\<rparr>"
    using makedirs_only_dirs [of "message_path s" s] m by auto
  have rd: "file_read (manifest_path s1) s1 = Inl e"
    using file_read_makedirs [of s "message_path s"] makedirs_manifest_path [of "message_path s" s]
      m assms(1) by simp
  have rm: "read_manifest c s1 = (Raises e, s1)"
    using rd assms(2) by (simp add: read_manifest_def)
  show "fst (start_manifest c s) = Raises e" using m rm by (simp add: start_manifest_def)
  show "ready (snd (start_manifest c s)) = ready s"
    using m rm d1 by (simp add: start_manifest_def)
  show "tasks (snd (start_manifest c s)) = tasks s"
    using m rm d1 by (simp add: start_manifest_def)
  show "logged (snd (start_manifest c s)) = logged s"
    using m rm d1 by (simp add: start_manifest_def)
qed

section \<open>put\<close>

lemma put_returnsD:
  assumes "put m s = (Returns (), s1)"
  shows "ready s"
    and "q s1 = q s @ [descriptor (message_path s) (uuids s (uuid_n s)) (clock s (ticks s))]"
    and "ticks s1 = Suc (ticks s)" and "uuid_n s1 = Suc (uuid_n s)"
    and "clock s1 = clock s" and "uuids s1 = uuids s" and "message_path s1 = message_path s"
    and "ready s1" and "manifest_dirty s1" and "\<not> manifest_clean s1"
    and "files s1 = (files s)(path_join (message_path s) (uuids s (uuid_n s)) \<mapsto> frame_bytes m)"
    and "fault s1 = fault s"
  using assms
  by (auto simp: put_def uuid4_def utcnow_def write_payload_def open_w_def file_write_def
      put_ident_def dirty_def q_put_def descriptor_def Let_def
      split: if_splits option.splits io_fault.splits)

lemma put_ok:
  assumes "ready s"
    and "dir_exists (dirname (path_join (message_path s) (uuids s (uuid_n s)))) s"
    and "fault s (path_join (message_path s) (uuids s (uuid_n s))) = None"
  shows "fst (put m s) = Returns ()"
    and "q (snd (put m s)) =
           q s @ [descriptor (message_path s) (uuids s (uuid_n s)) (clock s (ticks s))]"
    and "files (snd (put m s)) (path_join (message_path s) (uuids s (uuid_n s))) =
           Some (frame_bytes m)"
  using assms
  by (simp_all add: put_def uuid4_def utcnow_def write_payload_def open_w_def file_write_def
      put_ident_def dirty_def q_put_def descriptor_def Let_def dir_exists_def)

lemma put_raises:
  assumes "fst (put m s) = Raises e"
  shows "q (snd (put m s)) = q s" and "manifest_dirty (snd (put m s)) = manifest_dirty s"
    and "manifest_clean (snd (put m s)) = manifest_clean s" and "ready (snd (put m s)) = ready s"
  using assms
  by (auto simp: put_def uuid4_def utcnow_def write_payload_def open_w_def file_write_def
      put_ident_def Let_def split: if_splits option.splits io_fault.splits)

text \<open>
  A manifest that is read as text and that the codec does not decode (\<^verbatim>\<open>json.loads\<close>
  raises \<^verbatim>\<open>JSONDecodeError\<close> or anything else) does not fail start-up: on a freshly
  constructed buffer \<^verbatim>\<open>start_manifest\<close> returns, the queue is empty, the buffer is
  ready, the writer task is launched and the failure is in the log; and when the directory
  of the new payload exists after \<^verbatim>\<open>os.makedirs\<close> and the write meets no fault, a
  following \<^verbatim>\<open>put\<close> returns and leaves its descriptor on the queue and its payload on
  disk.
\<close>

lemma unparsed_text_manifest_starts_empty:
  assumes "s = init dir key w"
    and "file_read (manifest_path s) s = Inr data"
    and "loads c data = Inl e"
  shows "fst (start_manifest c s) = Returns () \<and>
         q (snd (start_manifest c s)) = [] \<and>
         ready (snd (start_manifest c s)) \<and>
         ManifestWriter \<in> set (tasks (snd (start_manifest c s))) \<and>
         logged (snd (start_manifest c s)) =
           logged w @ [if e = JSONDecodeError then FailedDecode data
                       else UnknownDecodeFailure data] \<and>
         (dir_exists (dirname (path_join (message_path s) (uuids w (uuid_n w))))
            (snd (makedirs (message_path s) s)) \<and>
          fault w (path_join (message_path s) (uuids w (uuid_n w))) = None \<longrightarrow>
            fst (put m (snd (start_manifest c s))) = Returns () \<and>
            q (snd (put m (snd (start_manifest c s)))) =
              [descriptor (message_path s) (uuids w (uuid_n w)) (clock w (ticks w))] \<and>
            files (snd (put m (snd (start_manifest c s))))
              (path_join (message_path s) (uuids w (uuid_n w))) = Some (frame_bytes m))"
proof -
  let ?t = "snd (start_manifest c s)"
  let ?p = "path_join (message_path s) (uuids w (uuid_n w))"
  note r = start_manifest_readable [OF assms(2), of c]
  have w: "fault s = fault w" "uuids s = uuids w" "uuid_n s = uuid_n w" "clock s = clock w"
    "ticks s = ticks w" "logged s = logged w" "q s = []"
    using assms(1) by (simp_all add: init_def)
  have qt: "q ?t = []" using start_manifest_q [of c s] w by simp
  note env = start_manifest_env [of c s]
  have p: "fst (put m ?t) = Returns () \<and>
      q (snd (put m ?t)) = [descriptor (message_path s) (uuids w (uuid_n w)) (clock w (ticks w))] \<and>
      files (snd (put m ?t)) ?p = Some (frame_bytes m)"
    if d: "dir_exists (dirname ?p) (snd (makedirs (message_path s) s))" and f: "fault w ?p = None"
  proof -
    have d': "dir_exists (dirname (path_join (message_path ?t) (uuids ?t (uuid_n ?t)))) ?t"
      using d env w by (simp add: dir_exists_def)
    have f': "fault ?t (path_join (message_path ?t) (uuids ?t (uuid_n ?t))) = None"
      using f env w by simp
    show ?thesis using put_ok [OF r(2) d' f', of m] env w qt by simp
  qed
  show ?thesis using r w qt p assms(3) by simp
qed

lemma unparsed_text_manifest_starts_empty_example:
  "file_read (manifest_path (init ''/b'' ''k'' (sample_world\<lparr>files := [''/b/manifest-k'' \<mapsto> ''garbage'']\<rparr>)))
     (init ''/b'' ''k'' (sample_world\<lparr>files := [''/b/manifest-k'' \<mapsto> ''garbage'']\<rparr>)) = Inr ''garbage'' \<and>
   loads sample_codec ''garbage'' = Inl JSONDecodeError \<and>
   fst (start_manifest sample_codec
         (init ''/b'' ''k'' (sample_world\<lparr>files := [''/b/manifest-k'' \<mapsto> ''garbage'']\<rparr>))) = Returns () \<and>
   q (snd (start_manifest sample_codec
         (init ''/b'' ''k'' (sample_world\<lparr>files := [''/b/manifest-k'' \<mapsto> ''garbage'']\<rparr>)))) = [] \<and>
   logged (snd (start_manifest sample_codec
         (init ''/b'' ''k'' (sample_world\<lparr>files := [''/b/manifest-k'' \<mapsto> ''garbage'']\<rparr>)))) =
     [FailedDecode ''garbage''] \<and>
   q (snd (put (Bytes ''abc'') (snd (start_manifest sample_codec
         (init ''/b'' ''k'' (sample_world\<lparr>files := [''/b/manifest-k'' \<mapsto> ''garbage'']\<rparr>)))))) =
     [[(''path'', PStr ''/b/messages/u''), (''expire_time'', PDatetime 300001000)]]"
proof -
  let ?w = "sample_world\<lparr>files := [''/b/manifest-k'' \<mapsto> ''garbage'']\<rparr>"
  let ?s = "init ''/b'' ''k'' ?w"
  have h1: "file_read (manifest_path ?s) ?s = Inr ''garbage''"
    by (simp add: init_def sample_world_def path_join_def file_read_def decodable_def)
  have h2: "loads sample_codec ''garbage'' = Inl JSONDecodeError"
    by (simp add: sample_codec_def)
  have v: "uuids ?w (uuid_n ?w) = ''u''" "clock ?w (ticks ?w) = 1000" "logged ?w = []"
    "message_path ?s = ''/b/messages''"
    by (simp_all add: sample_world_def init_def path_join_def)
  have h3: "fault ?w (path_join (message_path ?s) (uuids ?w (uuid_n ?w))) = None"
    by (simp add: sample_world_def)
  have h4: "dir_exists (dirname (path_join (message_path ?s) (uuids ?w (uuid_n ?w))))
              (snd (makedirs (message_path ?s) ?s))"
    unfolding v
    by (simp add: init_def sample_world_def path_join_def dirname_def dir_exists_def
        makedirs_def ancestors_def mkdir_def upt_rec)
  show ?thesis
    using unparsed_text_manifest_starts_empty [OF refl h1 h2, of "Bytes ''abc''"] h1 h2 h3 h4 v
    by (simp add: descriptor_def path_join_def minutes_def)
qed

text \<open>
  C5. A manifest of garbage bytes is claimed never to fail start-up. In the code the
  manifest is opened in text mode and only \<^verbatim>\<open>FileNotFoundError\<close> is caught around the
  read: with the bytes \<open>FF FE\<close> in the manifest and UTF-8 as the encoding of the locale,
  the read raises \<^verbatim>\<open>UnicodeDecodeError\<close>, \<^verbatim>\<open>start_manifest\<close> raises it too, nothing is
  logged, the buffer is not ready, no writer task is launched and a following \<^verbatim>\<open>put\<close>
  stays parked on the ready event.
\<close>

theorem undecodable_manifest_stops_startup:
  "fst (start_manifest sample_codec
         (init ''/b'' ''k'' (sample_world\<lparr>files := [''/b/manifest-k'' \<mapsto> [CHR 0xFF, CHR 0xFE]]\<rparr>))) =
     Raises UnicodeDecodeError \<and>
   \<not> ready (snd (start_manifest sample_codec
         (init ''/b'' ''k'' (sample_world\<lparr>files := [''/b/manifest-k'' \<mapsto> [CHR 0xFF, CHR 0xFE]]\<rparr>)))) \<and>
   tasks (snd (start_manifest sample_codec
         (init ''/b'' ''k'' (sample_world\<lparr>files := [''/b/manifest-k'' \<mapsto> [CHR 0xFF, CHR 0xFE]]\<rparr>)))) =
     [StartManifest] \<and>
   logged (snd (start_manifest sample_codec
         (init ''/b'' ''k'' (sample_world\<lparr>files := [''/b/manifest-k'' \<mapsto> [CHR 0xFF, CHR 0xFE]]\<rparr>)))) = [] \<and>
   fst (put (Bytes ''abc'') (snd (start_manifest sample_codec
         (init ''/b'' ''k'' (sample_world\<lparr>files := [''/b/manifest-k'' \<mapsto> [CHR 0xFF, CHR 0xFE]]\<rparr>))))) =
     Suspends WaitReady"
proof -
  let ?s = "init ''/b'' ''k'' (sample_world\<lparr>files := [''/b/manifest-k'' \<mapsto> [CHR 0xFF, CHR 0xFE]]\<rparr>)"
  have h: "file_read (manifest_path ?s) ?s = Inl UnicodeDecodeError"
    by (simp add: init_def sample_world_def path_join_def file_read_def decodable_def)
  have v: "\<not> ready ?s" "tasks ?s = [StartManifest]" "logged ?s = []"
    by (simp_all add: init_def sample_world_def)
  note f = start_manifest_read_failure [OF h, of sample_codec]
  have "\<not> ready (snd (start_manifest sample_codec ?s))" using f(2) v by simp
  then have "fst (put (Bytes ''abc'') (snd (start_manifest sample_codec ?s))) = Suspends WaitReady"
    by (simp add: put_def)
  then show ?thesis using f v by simp
qed

text \<open>
  C6. When the payload write of a \<^verbatim>\<open>put\<close> on a ready buffer raises, the \<^verbatim>\<open>put\<close> raises
  the same exception, and the queue, the dirty and clean flags and the ready flag are what
  they were before the call.
\<close>

theorem put_write_failure_propagates:
  assumes "ready s"
    and "fst (write_payload (path_join (message_path s) (uuids s (uuid_n s))) m
               (s\<lparr>uuid_n := Suc (uuid_n s), ticks := Suc (ticks s)\<rparr>)) = Inl e"
  shows "fst (put m s) = Raises e \<and> q (snd (put m s)) = q s \<and>
         manifest_dirty (snd (put m s)) = manifest_dirty s \<and>
         manifest_clean (snd (put m s)) = manifest_clean s \<and>
         ready (snd (put m s)) = ready s"
proof -
  have "fst (put m s) = Raises e"
    using assms
    by (cases "write_payload (path_join (message_path s) (uuids s (uuid_n s))) m
               (s\<lparr>uuid_n := Suc (uuid_n s), ticks := Suc (ticks s)\<rparr>)")
       (simp add: put_def uuid4_def utcnow_def Let_def)
  then show ?thesis using put_raises by blast
qed

theorem put_write_failure_propagates_witness:
  "ready (running_buffer [live_item]\<lparr>fault := (\<lambda>p. Some (WriteFault 1))\<rparr>) \<and>
   fst (put (Bytes ''abc'') (running_buffer [live_item]\<lparr>fault := (\<lambda>p. Some (WriteFault 1))\<rparr>)) =
     Raises OSError \<and>
   q (snd (put (Bytes ''abc'') (running_buffer [live_item]\<lparr>fault := (\<lambda>p. Some (WriteFault 1))\<rparr>))) =
     [live_item] \<and>
   \<not> manifest_dirty (snd (put (Bytes ''abc'')
       (running_buffer [live_item]\<lparr>fault := (\<lambda>p. Some (WriteFault 1))\<rparr>)))"
proof -
  let ?s = "running_buffer [live_item]\<lparr>fault := (\<lambda>p. Some (WriteFault 1))\<rparr>"
  have h1: "ready ?s" by (simp add: running_buffer_def)
  have h2: "fst (write_payload (path_join (message_path ?s) (uuids ?s (uuid_n ?s))) (Bytes ''abc'')
               (?s\<lparr>uuid_n := Suc (uuid_n ?s), ticks := Suc (ticks ?s)\<rparr>)) = Inl OSError"
    by (simp add: write_payload_def open_w_def file_write_def running_buffer_def
        sample_buffer_def init_def sample_world_def path_join_def dirname_def dir_exists_def)
  have v: "q ?s = [live_item]" "\<not> manifest_dirty ?s"
    by (simp_all add: running_buffer_def sample_buffer_def init_def)
  show ?thesis using put_write_failure_propagates [OF h1 h2] h1 v by simp
qed

section \<open>get and expire_all\<close>

lemma get_loop_outcome:
  "fst (get_loop s) = Suspends WaitQueue \<or> (\<exists>item. fst (get_loop s) = Returns item)"
proof (induction s rule: get_loop.induct)
  case (1 s)
  show ?case
  proof (cases "q s")
    case Nil
    then show ?thesis by (subst get_loop.simps) simp
  next
    case (Cons item rest)
    obtain r s2 where e: "is_expired item (dirty (s\<lparr>q := rest\<rparr>)) = (r, s2)"
      by (cases "is_expired item (dirty (s\<lparr>q := rest\<rparr>))")
    show ?thesis
    proof (cases r)
      case (Inl ex)
      have "ex = TypeError \<or> ex = KeyError"
        using e Inl by (auto simp: is_expired_def getitem_def utcnow_def split: option.splits pyval.splits)
      then show ?thesis using "1.IH"(1) [OF Cons e [symmetric] Inl] Cons e Inl
        by (subst get_loop.simps, subst (2) get_loop.simps) auto
    next
      case (Inr b)
      then show ?thesis using "1.IH"(2) [OF Cons e [symmetric] Inr] Cons e
        by (subst get_loop.simps, subst (2) get_loop.simps) auto
    qed
  qed
qed

text \<open>
  Whatever the queue holds, \<^verbatim>\<open>get\<close> leaves every file as it is, and \<^verbatim>\<open>expire\<close>, when
  it is run, never completes.
\<close>

lemma is_expired_files: "files (snd (is_expired item s)) = files s"
  by (simp add: is_expired_def utcnow_def split: sum.splits pyval.splits)

lemma get_loop_files: "files (snd (get_loop s)) = files s"
proof (induction s rule: get_loop.induct)
  case (1 s)
  show ?case
  proof (cases "q s")
    case Nil
    then show ?thesis by (simp add: get_loop.simps [of s])
  next
    case (Cons item rest)
    obtain r s2 where e: "is_expired item (dirty (s\<lparr>q := rest\<rparr>)) = (r, s2)"
      by (cases "is_expired item (dirty (s\<lparr>q := rest\<rparr>))")
    have f: "files s2 = files s"
      using is_expired_files [of item "dirty (s\<lparr>q := rest\<rparr>)"] e by (simp add: dirty_def)
    show ?thesis
    proof (cases r)
      case (Inl ex)
      then show ?thesis
        using "1.IH"(1) [OF Cons e [symmetric] Inl] Cons e f
        by (simp add: get_loop.simps [of s] log_add_def)
    next
      case (Inr b)
      then show ?thesis
        using "1.IH"(2) [OF Cons e [symmetric] Inr] Cons e f
        by (simp add: get_loop.simps [of s] unawaited_def)
    qed
  qed
qed

lemma get_files: "files (snd (get s)) = files s"
  by (simp add: get_def get_loop_files)

lemma expire_never_completes: "fst (expire item s) \<noteq> Inr ()"
  by (simp add: expire_def attrs_def Let_def split: sum.splits)

text \<open>
  C2. With an expired descriptor at the head of the queue and a live one behind it, \<^verbatim>\<open>get\<close>
  is claimed to schedule the deletion of the expired payload. In the code \<^verbatim>\<open>get\<close> calls
  \<^verbatim>\<open>self.expire(item)\<close> without \<^verbatim>\<open>await\<close>: on the queue \<open>[old_item, live_item]\<close> it
  returns \<open>live_item\<close> and drops \<open>old_item\<close>, but the payload file of \<open>old_item\<close> is
  still on disk, no file has changed, nothing is logged and no task is created.
\<close>

theorem get_skips_expired_without_deleting:
  "fst (get (running_buffer [old_item, live_item])) = Returns live_item \<and>
   q (snd (get (running_buffer [old_item, live_item]))) = [] \<and>
   files (snd (get (running_buffer [old_item, live_item]))) ''/b/messages/old'' = Some ''x'' \<and>
   files (snd (get (running_buffer [old_item, live_item]))) =
     files (running_buffer [old_item, live_item]) \<and>
   logged (snd (get (running_buffer [old_item, live_item]))) = [] \<and>
   tasks (snd (get (running_buffer [old_item, live_item]))) = [StartManifest]"
  by (simp add: get_def get_loop.simps running_buffer_def sample_buffer_def init_def
      sample_world_def is_expired_def getitem_def utcnow_def dirty_def unawaited_def
      old_item_def live_item_def)

text \<open>
  C3. On a queue that mixes expired and live descriptors \<^verbatim>\<open>expire_all\<close> is claimed to keep
  exactly the live ones, delete the expired payloads and mark the buffer dirty. In the code
  \<^verbatim>\<open>expire\<close> reads \<^verbatim>\<open>self._deferrer\<close>, which no instance has: on the queue
  \<open>[first_item, old_item, live_item]\<close> the sweep raises \<^verbatim>\<open>AttributeError\<close> at
  \<open>old_item\<close>, the queue is left as \<open>[first_item]\<close> (the live \<open>live_item\<close> is lost with
  the old queue), the expired payload is still on disk and the buffer is not marked dirty.
\<close>

theorem expire_all_raises_on_expired:
  "fst (expire_all (running_buffer [first_item, old_item, live_item])) = Raises AttributeError \<and>
   q (snd (expire_all (running_buffer [first_item, old_item, live_item]))) = [first_item] \<and>
   files (snd (expire_all (running_buffer [first_item, old_item, live_item]))) ''/b/messages/old'' =
     Some ''x'' \<and>
   \<not> manifest_dirty (snd (expire_all (running_buffer [first_item, old_item, live_item]))) \<and>
   logged (snd (expire_all (running_buffer [first_item, old_item, live_item]))) =
     [Expiring (PStr ''/b/messages/old'')]"
  by (simp add: expire_all_def running_buffer_def sample_buffer_def init_def
      sample_world_def is_expired_def getitem_def utcnow_def dirty_def expire_def attrs_def
      q_put_def log_add_def old_item_def live_item_def first_item_def)

section \<open>Puts followed by gets\<close>

lemma put_seq_returns:
  "put_seq ms s = (rs, s1) \<Longrightarrow> \<forall>r\<in>set rs. r = Returns () \<Longrightarrow>
   q s1 = q s @ map (\<lambda>k. descriptor (message_path s) (uuids s (uuid_n s + k)) (clock s (ticks s + k)))
                  [0..<length ms] \<and>
   ticks s1 = ticks s + length ms \<and> uuid_n s1 = uuid_n s + length ms \<and>
   clock s1 = clock s \<and> uuids s1 = uuids s \<and> message_path s1 = message_path s \<and>
   ready s1 = ready s \<and> length rs = length ms"
proof (induction ms arbitrary: s rs s1)
  case Nil
  then show ?case by simp
next
  case (Cons m ms)
  obtain r s' where p: "put m s = (r, s')" by (cases "put m s")
  obtain rs' s'' where ps: "put_seq ms s' = (rs', s'')" by (cases "put_seq ms s'")
  from Cons.prems p ps have eq: "rs = r # rs'" "s1 = s''" by auto
  with Cons.prems(2) have r: "r = Returns ()" and rs': "\<forall>r\<in>set rs'. r = Returns ()" by auto
  note d = put_returnsD [OF p [unfolded r]]
  from Cons.IH [OF ps rs'] show ?case
    unfolding eq using d by (simp add: map_upt_Suc del: upt_Suc)
qed

lemma get_live:
  assumes "ready s" "q s = descriptor d u t # rest" "\<not> (t + minutes 5 < clock s (ticks s))"
  shows "get s = (Returns (descriptor d u t),
                  s\<lparr>ticks := Suc (ticks s), q := rest, manifest_dirty := True, manifest_clean := False\<rparr>)"
  using assms
  by (simp add: get_def get_loop.simps [of s] is_expired_def getitem_def descriptor_def
      utcnow_def dirty_def)

lemma get_seq_live:
  "ready s \<Longrightarrow> q s = map (\<lambda>k. descriptor d (us k) (ts k)) [0..<n] @ rest \<Longrightarrow>
   \<forall>k<n. \<not> (ts k + minutes 5 < clock s (ticks s + k)) \<Longrightarrow>
   fst (get_seq n s) = map (\<lambda>k. Returns (descriptor d (us k) (ts k))) [0..<n] \<and>
   files (snd (get_seq n s)) = files s \<and> q (snd (get_seq n s)) = rest"
proof (induction n arbitrary: s us ts)
  case 0
  then show ?case by simp
next
  case (Suc n)
  let ?s' = "s\<lparr>ticks := Suc (ticks s), q := map (\<lambda>k. descriptor d (us (Suc k)) (ts (Suc k))) [0..<n] @ rest,
               manifest_dirty := True, manifest_clean := False\<rparr>"
  have qs: "q s = descriptor d (us 0) (ts 0) # (map (\<lambda>k. descriptor d (us (Suc k)) (ts (Suc k))) [0..<n] @ rest)"
    using Suc.prems(2) by (simp add: map_upt_Suc del: upt_Suc)
  have live: "\<not> (ts 0 + minutes 5 < clock s (ticks s))" using Suc.prems(3) by force
  have g: "get s = (Returns (descriptor d (us 0) (ts 0)), ?s')"
    using get_live [OF Suc.prems(1) qs live] by simp
  have ih: "fst (get_seq n ?s') = map (\<lambda>k. Returns (descriptor d (us (Suc k)) (ts (Suc k)))) [0..<n] \<and>
            files (snd (get_seq n ?s')) = files ?s' \<and> q (snd (get_seq n ?s')) = rest"
  proof (rule Suc.IH)
    show "ready ?s'" using Suc.prems(1) by simp
    show "q ?s' = map (\<lambda>k. descriptor d (us (Suc k)) (ts (Suc k))) [0..<n] @ rest" by simp
    show "\<forall>k<n. \<not> (ts (Suc k) + minutes 5 < clock ?s' (ticks ?s' + k))"
      using Suc.prems(3) by auto
  qed
  obtain rs s2 where gs: "get_seq n ?s' = (rs, s2)" by (cases "get_seq n ?s'")
  have "get_seq (Suc n) s = (Returns (descriptor d (us 0) (ts 0)) # rs, s2)"
    using g gs by simp
  then show ?case using ih gs by (simp add: map_upt_Suc del: upt_Suc)
qed

lemma put_seq_files:
  "put_seq ms s = (rs, s1) \<Longrightarrow> \<forall>r\<in>set rs. r = Returns () \<Longrightarrow>
   distinct (map (\<lambda>k. path_join (message_path s) (uuids s (uuid_n s + k))) [0..<length ms]) \<Longrightarrow>
   (\<forall>k<length ms. files s1 (path_join (message_path s) (uuids s (uuid_n s + k))) = Some (frame_bytes (ms ! k))) \<and>
   (\<forall>p. p \<notin> (\<lambda>k. path_join (message_path s) (uuids s (uuid_n s + k))) ` {0..<length ms} \<longrightarrow> files s1 p = files s p)"
proof (induction ms arbitrary: s rs s1)
  case Nil
  then show ?case by simp
next
  case (Cons m ms)
  let ?P = "\<lambda>k. path_join (message_path s) (uuids s (uuid_n s + k))"
  obtain r s' where p: "put m s = (r, s')" by (cases "put m s")
  obtain rs' s'' where ps: "put_seq ms s' = (rs', s'')" by (cases "put_seq ms s'")
  from Cons.prems p ps have eq: "rs = r # rs'" "s1 = s''" by auto
  with Cons.prems(2) have r: "r = Returns ()" and rs': "\<forall>r\<in>set rs'. r = Returns ()" by auto
  note d = put_returnsD [OF p [unfolded r]]
  have P': "\<And>k. path_join (message_path s') (uuids s' (uuid_n s' + k)) = ?P (Suc k)"
    using d by simp
  have dist: "distinct (map (\<lambda>k. ?P (Suc k)) [0..<length ms])" and notin: "?P 0 \<notin> (\<lambda>k. ?P (Suc k)) ` {0..<length ms}"
    using Cons.prems(3) by (auto simp: map_upt_Suc simp del: upt_Suc)
  have ih: "(\<forall>k<length ms. files s'' (?P (Suc k)) = Some (frame_bytes (ms ! k))) \<and>
            (\<forall>p. p \<notin> (\<lambda>k. ?P (Suc k)) ` {0..<length ms} \<longrightarrow> files s'' p = files s' p)"
    using Cons.IH [OF ps rs'] dist unfolding P' by simp
  have f0: "files s'' (?P 0) = Some (frame_bytes m)"
    using ih notin d(11) by simp
  have a: "\<forall>k<length (m # ms). files s1 (?P k) = Some (frame_bytes ((m # ms) ! k))"
  proof (intro allI impI)
    fix k assume "k < length (m # ms)"
    then show "files s1 (?P k) = Some (frame_bytes ((m # ms) ! k))"
      using f0 ih eq by (cases k) auto
  qed
  have b: "\<forall>p. p \<notin> ?P ` {0..<length (m # ms)} \<longrightarrow> files s1 p = files s p"
  proof (intro allI impI)
    fix p assume n: "p \<notin> ?P ` {0..<length (m # ms)}"
    have "?P 0 \<in> ?P ` {0..<length (m # ms)}" by (rule imageI) simp
    then have "p \<noteq> ?P 0" using n by blast
    moreover have "p \<notin> (\<lambda>k. ?P (Suc k)) ` {0..<length ms}"
    proof
      assume "p \<in> (\<lambda>k. ?P (Suc k)) ` {0..<length ms}"
      then obtain k where "k < length ms" "p = ?P (Suc k)" by auto
      then have "p \<in> ?P ` {0..<length (m # ms)}" by (intro image_eqI [of _ _ "Suc k"]) simp_all
      then show False using n by blast
    qed
    ultimately show "files s1 p = files s p" using ih d(11) eq by simp
  qed
  show ?case using a b by blast
qed

text \<open>
  C4. On a ready buffer with an empty queue, let every one of the \<open>N\<close> calls of \<^verbatim>\<open>put\<close>
  return, and let no descriptor be expired when its \<^verbatim>\<open>get\<close> reads the clock (the
  \<open>k\<close>-th \<^verbatim>\<open>put\<close> takes clock reading \<open>k\<close>, the \<open>k\<close>-th \<^verbatim>\<open>get\<close> reading \<open>N + k\<close>). Then
  the \<open>N\<close> calls of \<^verbatim>\<open>get\<close> return the descriptors built by the puts, in the order of
  the puts; and when the generated paths are distinct, the file at the \<open>k\<close>-th returned
  path holds the \<open>k\<close>-th payload.
\<close>

theorem put_get_fifo:
  assumes "ready s" and "q s = []"
    and "\<forall>r\<in>set (fst (put_seq ms s)). r = Returns ()"
    and "\<forall>k<length ms. \<not> (clock s (ticks s + k) + minutes 5 < clock s (ticks s + length ms + k))"
  shows "fst (get_seq (length ms) (snd (put_seq ms s))) =
           map (\<lambda>k. Returns (descriptor (message_path s) (uuids s (uuid_n s + k))
                                (clock s (ticks s + k)))) [0..<length ms] \<and>
         (distinct (map (\<lambda>k. path_join (message_path s) (uuids s (uuid_n s + k))) [0..<length ms]) \<longrightarrow>
            (\<forall>k<length ms.
               files (snd (get_seq (length ms) (snd (put_seq ms s))))
                 (path_join (message_path s) (uuids s (uuid_n s + k))) = Some (frame_bytes (ms ! k))))"
proof -
  obtain rs s1 where ps: "put_seq ms s = (rs, s1)" by (cases "put_seq ms s")
  have rs: "\<forall>r\<in>set rs. r = Returns ()" using assms(3) ps by simp
  note st = put_seq_returns [OF ps rs]
  have q1: "q s1 = map (\<lambda>k. descriptor (message_path s) (uuids s (uuid_n s + k)) (clock s (ticks s + k)))
                     [0..<length ms] @ []"
    using st assms(2) by simp
  have r1: "ready s1" using st assms(1) by simp
  have live: "\<forall>k<length ms. \<not> (clock s (ticks s + k) + minutes 5 < clock s1 (ticks s1 + k))"
    using st assms(4) by simp
  note g = get_seq_live [OF r1 q1 live]
  have a: "fst (get_seq (length ms) (snd (put_seq ms s))) =
           map (\<lambda>k. Returns (descriptor (message_path s) (uuids s (uuid_n s + k))
                                (clock s (ticks s + k)))) [0..<length ms]"
    using g ps by simp
  have b: "\<forall>k<length ms.
               files (snd (get_seq (length ms) (snd (put_seq ms s))))
                 (path_join (message_path s) (uuids s (uuid_n s + k))) = Some (frame_bytes (ms ! k))"
    if d: "distinct (map (\<lambda>k. path_join (message_path s) (uuids s (uuid_n s + k))) [0..<length ms])"
    using put_seq_files [OF ps rs d] g ps by simp
  show ?thesis using a b by blast
qed

theorem put_get_fifo_witness:
  "ready (running_buffer []) \<and> q (running_buffer []) = [] \<and>
   fst (put_seq [Bytes ''one'', Chunks [''t'', ''wo'']] (running_buffer [])) = [Returns (), Returns ()] \<and>
   fst (get_seq 2 (snd (put_seq [Bytes ''one'', Chunks [''t'', ''wo'']] (running_buffer [])))) =
     [Returns [(''path'', PStr ''/b/messages/u''), (''expire_time'', PDatetime 300001000)],
      Returns [(''path'', PStr ''/b/messages/uu''), (''expire_time'', PDatetime 300001001)]] \<and>
   files (snd (get_seq 2 (snd (put_seq [Bytes ''one'', Chunks [''t'', ''wo'']] (running_buffer [])))))
     ''/b/messages/uu'' = Some ''two''"
proof -
  let ?s = "running_buffer []"
  let ?ms = "[Bytes ''one'', Chunks [''t'', ''wo'']]"
  have v: "ready ?s" "q ?s = []" "message_path ?s = ''/b/messages''" "ticks ?s = 0" "uuid_n ?s = 0"
    "clock ?s = (\<lambda>n. 1000 + int n)" "uuids ?s = (\<lambda>n. replicate (Suc n) CHR ''u'')"
    "fault ?s = (\<lambda>p. None)"
    by (simp_all add: running_buffer_def sample_buffer_def init_def sample_world_def path_join_def)
  have d0: "dirs ?s = [''/b/messages'', ''/b'']" by (simp add: running_buffer_def)
  have p: "fst (put_seq ?ms ?s) = [Returns (), Returns ()]"
    by (simp add: put_def uuid4_def utcnow_def write_payload_def open_w_def file_write_def
        put_ident_def Let_def dirty_def q_put_def dirname_def dir_exists_def path_join_def v d0)
  have h3: "\<forall>r\<in>set (fst (put_seq ?ms ?s)). r = Returns ()" using p by simp
  have h4: "\<forall>k<length ?ms. \<not> (clock ?s (ticks ?s + k) + minutes 5 < clock ?s (ticks ?s + length ?ms + k))"
    by (simp add: v minutes_def)
  have d: "distinct (map (\<lambda>k. path_join (message_path ?s) (uuids ?s (uuid_n ?s + k))) [0..<length ?ms])"
    by (simp add: v path_join_def)
  have l: "length ?ms = 2" by simp
  have two: "[0..<2] = [0, Suc 0]" by (simp add: upt_rec)
  define G where "G = get_seq 2 (snd (put_seq ?ms ?s))"
  note t = put_get_fifo [OF v(1) v(2) h3 h4, unfolded l, folded G_def]
  have d: "distinct (map (\<lambda>k. path_join (message_path ?s) (uuids ?s (uuid_n ?s + k))) [0..<2])"
    by (simp add: v path_join_def two)
  have c1: "fst G =
     [Returns [(''path'', PStr ''/b/messages/u''), (''expire_time'', PDatetime 300001000)],
      Returns [(''path'', PStr ''/b/messages/uu''), (''expire_time'', PDatetime 300001001)]]"
    using conjunct1 [OF t] by (simp add: two v descriptor_def path_join_def minutes_def)
  have a: "\<forall>k<2. files (snd G) (path_join (message_path ?s) (uuids ?s (uuid_n ?s + k))) =
          Some (frame_bytes (?ms ! k))"
    using conjunct2 [OF t] d by blast
  have "(1::nat) < 2" by simp
  from a [rule_format, OF this] have "files (snd G) (path_join (message_path ?s) (uuids ?s (uuid_n ?s + 1))) =
          Some (frame_bytes (?ms ! 1))"
    by simp
  then have c2: "files (snd G) ''/b/messages/uu'' = Some ''two''"
    by (simp add: v path_join_def)
  show ?thesis using v(1,2) p c1 c2 unfolding G_def by blast
qed

section \<open>The manifest writer\<close>

lemma manifest_flush_frame:
  "q (snd (manifest_flush c s)) = q s \<and> logged (snd (manifest_flush c s)) = logged s \<and>
   manifest_dirty (snd (manifest_flush c s)) = manifest_dirty s \<and>
   manifest_clean (snd (manifest_flush c s)) = manifest_clean s \<and>
   manifest_path (snd (manifest_flush c s)) = manifest_path s \<and>
   ready (snd (manifest_flush c s)) = ready s"
  by (auto simp: manifest_flush_def open_w_def file_write_def
      split: option.splits io_fault.splits sum.splits if_splits)

lemma manifest_flush_written:
  "fst (manifest_flush c s) = Inr () \<Longrightarrow>
   \<exists>data. dumps c (q s) = Inr data \<and> files (snd (manifest_flush c s)) (manifest_path s) = Some data"
  by (auto simp: manifest_flush_def open_w_def file_write_def
      split: option.splits io_fault.splits sum.splits if_splits)






text \<open>
  C8. A \<^verbatim>\<open>put\<close> that returns leaves the buffer dirty and not clean. A pass of the writer
  on a dirty buffer whose write succeeds, with nothing else running in between, leaves the
  buffer clean and not dirty, the queue as it was, and in the manifest file the codec's
  serialisation of that queue.
\<close>

theorem dirty_clean_convergence:
  "(fst (put m s) = Returns () \<longrightarrow>
      manifest_dirty (snd (put m s)) \<and> \<not> manifest_clean (snd (put m s))) \<and>
   (manifest_dirty t \<and> \<not> manifest_locked t \<and>
    fst (manifest_flush c (t\<lparr>manifest_locked := True\<rparr>)) = Inr () \<longrightarrow>
      (\<exists>data. dumps c (q t) = Inr data \<and>
              files (snd (manifest_writer_pass c t)) (manifest_path t) = Some data) \<and>
      q (snd (manifest_writer_pass c t)) = q t \<and>
      manifest_clean (snd (manifest_writer_pass c t)) \<and>
      \<not> manifest_dirty (snd (manifest_writer_pass c t)) \<and>
      fst (manifest_writer_pass c t) = Suspends WaitSleep)"
proof (intro conjI impI)
  assume r: "fst (put m s) = Returns ()"
  obtain s1 where p: "put m s = (Returns (), s1)" using r by (cases "put m s") simp
  show "manifest_dirty (snd (put m s))" using put_returnsD(9) [OF p] p by simp
  show "\<not> manifest_clean (snd (put m s))" using put_returnsD(10) [OF p] p by simp
next
  assume a: "manifest_dirty t \<and> \<not> manifest_locked t \<and>
    fst (manifest_flush c (t\<lparr>manifest_locked := True\<rparr>)) = Inr ()"
  let ?tl = "t\<lparr>manifest_locked := True\<rparr>"
  obtain t1 where f: "manifest_flush c ?tl = (Inr (), t1)"
    using a by (cases "manifest_flush c ?tl") simp
  have p: "manifest_writer_pass c t = (Suspends WaitSleep, (clean t1)\<lparr>manifest_locked := False\<rparr>)"
    using a f by (simp add: manifest_writer_pass_def)
  have fr: "q t1 = q t" using manifest_flush_frame [of c ?tl] f by simp
  obtain data where d: "dumps c (q t) = Inr data" "files t1 (manifest_path t) = Some data"
    using manifest_flush_written [of c ?tl] f by auto
  show "\<exists>data. dumps c (q t) = Inr data \<and>
              files (snd (manifest_writer_pass c t)) (manifest_path t) = Some data"
    using p d by (simp add: clean_def)
  show "q (snd (manifest_writer_pass c t)) = q t" using p fr by (simp add: clean_def)
  show "manifest_clean (snd (manifest_writer_pass c t))" using p by (simp add: clean_def)
  show "\<not> manifest_dirty (snd (manifest_writer_pass c t))" using p by (simp add: clean_def)
  show "fst (manifest_writer_pass c t) = Suspends WaitSleep" using p by simp
qed

theorem dirty_clean_convergence_witness:
  "fst (put (Bytes ''abc'') (running_buffer [])) = Returns () \<and>
   manifest_dirty (snd (put (Bytes ''abc'') (running_buffer []))) \<and>
   \<not> manifest_clean (snd (put (Bytes ''abc'') (running_buffer []))) \<and>
   \<not> manifest_locked (snd (put (Bytes ''abc'') (running_buffer []))) \<and>
   fst (manifest_flush sample_codec
          ((snd (put (Bytes ''abc'') (running_buffer [])))\<lparr>manifest_locked := True\<rparr>)) = Inr () \<and>
   files (snd (manifest_writer_pass sample_codec (snd (put (Bytes ''abc'') (running_buffer [])))))
     ''/b/manifest-k'' = Some ''/b/messages/u;'' \<and>
   manifest_clean (snd (manifest_writer_pass sample_codec
     (snd (put (Bytes ''abc'') (running_buffer [])))))"
proof -
  define t where "t = snd (put (Bytes ''abc'') (running_buffer []))"
  have parts: "fst (put (Bytes ''abc'') (running_buffer [])) = Returns ()"
    "manifest_dirty t" "\<not> manifest_locked t"
    "fst (manifest_flush sample_codec (t\<lparr>manifest_locked := True\<rparr>)) = Inr ()"
    "manifest_path t = ''/b/manifest-k''"
    "dumps sample_codec (q t) = Inr ''/b/messages/u;''"
    unfolding t_def
    by (simp_all add: put_def uuid4_def utcnow_def write_payload_def open_w_def file_write_def
        put_ident_def Let_def dirty_def q_put_def manifest_flush_def sample_codec_def
        running_buffer_def sample_buffer_def init_def sample_world_def path_join_def
        dirname_def dir_exists_def)
  note th = dirty_clean_convergence [of "Bytes ''abc''" "running_buffer []" t sample_codec,
      folded t_def]
  have a: "manifest_dirty t \<and> \<not> manifest_clean t" using th parts(1) by blast
  have b: "(\<exists>data. dumps sample_codec (q t) = Inr data \<and>
              files (snd (manifest_writer_pass sample_codec t)) (manifest_path t) = Some data) \<and>
           manifest_clean (snd (manifest_writer_pass sample_codec t))"
    using th parts(2,3,4) by blast
  have c: "files (snd (manifest_writer_pass sample_codec t)) ''/b/manifest-k'' =
             Some ''/b/messages/u;''"
    using b parts(5,6) by auto
  show ?thesis using parts(1,3,4) a b c unfolding t_def by blast
qed

section \<open>The ready gate\<close>

lemma start_manifest_returns_ready:
  "fst (start_manifest c s) = Returns () \<Longrightarrow> ready (snd (start_manifest c s))"
  by (cases "makedirs (message_path s) s"; cases "read_manifest c (snd (makedirs (message_path s) s))";
      cases "fst (read_manifest c (snd (makedirs (message_path s) s)))")
     (auto simp: start_manifest_def create_task_def)

lemma put_write_ok:
  assumes "ready s"
    and "fst (write_payload (path_join (message_path s) (uuids s (uuid_n s))) m
               (s\<lparr>uuid_n := Suc (uuid_n s), ticks := Suc (ticks s)\<rparr>)) = Inr ()"
  shows "fst (put m s) = Returns ()"
  using assms
  by (cases "write_payload (path_join (message_path s) (uuids s (uuid_n s))) m
               (s\<lparr>uuid_n := Suc (uuid_n s), ticks := Suc (ticks s)\<rparr>)")
     (simp add: put_def uuid4_def utcnow_def Let_def put_ident_def)

lemma put_write_raises:
  assumes "ready s"
    and "fst (write_payload (path_join (message_path s) (uuids s (uuid_n s))) m
               (s\<lparr>uuid_n := Suc (uuid_n s), ticks := Suc (ticks s)\<rparr>)) = Inl e"
  shows "fst (put m s) = Raises e"
  using assms
  by (cases "write_payload (path_join (message_path s) (uuids s (uuid_n s))) m
               (s\<lparr>uuid_n := Suc (uuid_n s), ticks := Suc (ticks s)\<rparr>)")
     (simp add: put_def uuid4_def utcnow_def Let_def)

lemma get_empty: "ready s \<Longrightarrow> q s = [] \<Longrightarrow> get s = (Suspends WaitQueue, s)"
  by (simp add: get_def get_loop.simps [of s])

lemma get_head_live:
  assumes "ready s" and "q s = item # rest"
    and "getitem item ''expire_time'' = Inr (PDatetime t)" and "\<not> t < clock s (ticks s)"
  shows "get s = (Returns item,
                  s\<lparr>ticks := Suc (ticks s), q := rest, manifest_dirty := True,
                     manifest_clean := False\<rparr>)"
  using assms by (simp add: get_def get_loop.simps [of s] is_expired_def utcnow_def dirty_def)

lemma get_head_expired:
  assumes "ready s" and "q s = item # rest"
    and "getitem item ''expire_time'' = Inr (PDatetime t)" and "t < clock s (ticks s)"
  shows "get s = get (s\<lparr>ticks := Suc (ticks s), q := rest, manifest_dirty := True,
                         manifest_clean := False\<rparr>)"
proof -
  have eq: "s\<lparr>q := rest, manifest_dirty := True, manifest_clean := False,
               ticks := Suc (ticks s)\<rparr> =
            s\<lparr>ticks := Suc (ticks s), q := rest, manifest_dirty := True,
               manifest_clean := False\<rparr>"
    by simp
  have "get s = get_loop (s\<lparr>q := rest, manifest_dirty := True, manifest_clean := False,
                             ticks := Suc (ticks s)\<rparr>)"
    using assms
    by (simp add: get_def get_loop.simps [of s] is_expired_def utcnow_def dirty_def
        unawaited_def)
  then show ?thesis using assms(1) unfolding eq by (simp add: get_def)
qed

lemma get_head_no_expire_time:
  assumes "ready s" and "q s = item # rest" and "getitem item ''expire_time'' = Inl e"
  shows "get s = get (s\<lparr>logged := logged s @ [BadItem item], q := rest, manifest_dirty := True,
                         manifest_clean := False\<rparr>)"
proof -
  have e: "e = KeyError" using assms(3) by (simp add: getitem_def split: option.splits)
  have eq: "s\<lparr>q := rest, manifest_dirty := True, manifest_clean := False,
               logged := logged s @ [BadItem item]\<rparr> =
            s\<lparr>logged := logged s @ [BadItem item], q := rest, manifest_dirty := True,
               manifest_clean := False\<rparr>"
    by simp
  have "get s = get_loop (s\<lparr>q := rest, manifest_dirty := True, manifest_clean := False,
                             logged := logged s @ [BadItem item]\<rparr>)"
    using assms e
    by (simp add: get_def get_loop.simps [of s] is_expired_def dirty_def log_add_def)
  then show ?thesis using assms(1) unfolding eq by (simp add: get_def)
qed

text \<open>
  C9. While the buffer is not ready, \<^verbatim>\<open>put\<close> and \<^verbatim>\<open>get\<close> park on the ready event and
  leave the whole state as it is: no pop, no push, no file, no error. Once it is ready they
  do their work. \<^verbatim>\<open>put\<close> returns or raises; when its write succeeds it returns with its
  descriptor appended to the queue, its payload in the file and the buffer dirty, and when
  its write raises it raises the same. \<^verbatim>\<open>get\<close> returns an item or waits on the queue: on
  an empty queue it waits; a head that is not expired is popped and returned, the buffer
  dirty; an expired head is popped and the call goes on with the rest; a head without
  \<^verbatim>\<open>expire_time\<close> is popped, logged, and the call goes on with the rest. And a start-up
  that returns has set the ready event.
\<close>

theorem readiness_gate:
  "(\<not> ready s \<longrightarrow> put m s = (Suspends WaitReady, s) \<and> get s = (Suspends WaitReady, s)) \<and>
   (ready s \<longrightarrow>
      (fst (put m s) = Returns () \<or> (\<exists>e. fst (put m s) = Raises e)) \<and>
      (fst (get s) = Suspends WaitQueue \<or> (\<exists>item. fst (get s) = Returns item)) \<and>
      (fst (write_payload (path_join (message_path s) (uuids s (uuid_n s))) m
              (s\<lparr>uuid_n := Suc (uuid_n s), ticks := Suc (ticks s)\<rparr>)) = Inr () \<longrightarrow>
         fst (put m s) = Returns () \<and>
         q (snd (put m s)) =
           q s @ [descriptor (message_path s) (uuids s (uuid_n s)) (clock s (ticks s))] \<and>
         files (snd (put m s)) (path_join (message_path s) (uuids s (uuid_n s))) =
           Some (frame_bytes m) \<and>
         manifest_dirty (snd (put m s))) \<and>
      (fst (write_payload (path_join (message_path s) (uuids s (uuid_n s))) m
              (s\<lparr>uuid_n := Suc (uuid_n s), ticks := Suc (ticks s)\<rparr>)) = Inl e \<longrightarrow>
         fst (put m s) = Raises e) \<and>
      (q s = [] \<longrightarrow> get s = (Suspends WaitQueue, s)) \<and>
      (q s = item # rest \<and> getitem item ''expire_time'' = Inr (PDatetime t) \<and>
       \<not> t < clock s (ticks s) \<longrightarrow>
         get s = (Returns item,
                  s\<lparr>ticks := Suc (ticks s), q := rest, manifest_dirty := True,
                     manifest_clean := False\<rparr>)) \<and>
      (q s = item # rest \<and> getitem item ''expire_time'' = Inr (PDatetime t) \<and>
       t < clock s (ticks s) \<longrightarrow>
         get s = get (s\<lparr>ticks := Suc (ticks s), q := rest, manifest_dirty := True,
                        manifest_clean := False\<rparr>)) \<and>
      (q s = item # rest \<and> getitem item ''expire_time'' = Inl e' \<longrightarrow>
         get s = get (s\<lparr>logged := logged s @ [BadItem item], q := rest,
                        manifest_dirty := True, manifest_clean := False\<rparr>))) \<and>
   (fst (start_manifest c s) = Returns () \<longrightarrow> ready (snd (start_manifest c s)))"
proof (intro conjI impI)
  assume "\<not> ready s"
  then show "put m s = (Suspends WaitReady, s)" by (simp add: put_def)
  from \<open>\<not> ready s\<close> show "get s = (Suspends WaitReady, s)" by (simp add: get_def)
next
  assume r: "ready s"
  show "fst (put m s) = Returns () \<or> (\<exists>e. fst (put m s) = Raises e)"
    using r
    by (auto simp: put_def uuid4_def utcnow_def write_payload_def open_w_def file_write_def
        put_ident_def Let_def split: option.splits io_fault.splits)
  show "fst (get s) = Suspends WaitQueue \<or> (\<exists>item. fst (get s) = Returns item)"
    using r get_loop_outcome [of s] by (simp add: get_def)
  {
    assume w: "fst (write_payload (path_join (message_path s) (uuids s (uuid_n s))) m
              (s\<lparr>uuid_n := Suc (uuid_n s), ticks := Suc (ticks s)\<rparr>)) = Inr ()"
    have ret: "fst (put m s) = Returns ()" by (rule put_write_ok [OF r w])
    then obtain s1 where p: "put m s = (Returns (), s1)" by (cases "put m s") simp
    note d = put_returnsD [OF p]
    show "fst (put m s) = Returns ()" by (rule ret)
    show "q (snd (put m s)) =
           q s @ [descriptor (message_path s) (uuids s (uuid_n s)) (clock s (ticks s))]"
      using d(2) p by simp
    show "files (snd (put m s)) (path_join (message_path s) (uuids s (uuid_n s))) =
           Some (frame_bytes m)"
      using d(11) p by simp
    show "manifest_dirty (snd (put m s))" using d(9) p by simp
  }
  {
    assume "fst (write_payload (path_join (message_path s) (uuids s (uuid_n s))) m
              (s\<lparr>uuid_n := Suc (uuid_n s), ticks := Suc (ticks s)\<rparr>)) = Inl e"
    then show "fst (put m s) = Raises e" by (rule put_write_raises [OF r])
  }
  {
    assume "q s = []"
    then show "get s = (Suspends WaitQueue, s)" by (rule get_empty [OF r])
  }
  {
    assume "q s = item # rest \<and> getitem item ''expire_time'' = Inr (PDatetime t) \<and>
       \<not> t < clock s (ticks s)"
    then show "get s = (Returns item,
                  s\<lparr>ticks := Suc (ticks s), q := rest, manifest_dirty := True,
                     manifest_clean := False\<rparr>)"
      using get_head_live [OF r] by blast
  }
  {
    assume "q s = item # rest \<and> getitem item ''expire_time'' = Inr (PDatetime t) \<and>
       t < clock s (ticks s)"
    then show "get s = get (s\<lparr>ticks := Suc (ticks s), q := rest, manifest_dirty := True,
                        manifest_clean := False\<rparr>)"
      using get_head_expired [OF r] by blast
  }
  {
    assume "q s = item # rest \<and> getitem item ''expire_time'' = Inl e'"
    then show "get s = get (s\<lparr>logged := logged s @ [BadItem item], q := rest,
                        manifest_dirty := True, manifest_clean := False\<rparr>)"
      using get_head_no_expire_time [OF r] by blast
  }
next
  assume "fst (start_manifest c s) = Returns ()"
  then show "ready (snd (start_manifest c s))" by (rule start_manifest_returns_ready)
qed

theorem readiness_gate_witness:
  "\<not> ready sample_buffer \<and>
   put (Bytes ''abc'') sample_buffer = (Suspends WaitReady, sample_buffer) \<and>
   get sample_buffer = (Suspends WaitReady, sample_buffer) \<and>
   fst (start_manifest sample_codec sample_buffer) = Returns () \<and>
   ready (snd (start_manifest sample_codec sample_buffer)) \<and>
   ready (running_buffer [live_item]) \<and>
   fst (put (Bytes ''abc'') (running_buffer [live_item])) = Returns () \<and>
   q (snd (put (Bytes ''abc'') (running_buffer [live_item]))) =
     [live_item, [(''path'', PStr ''/b/messages/u''), (''expire_time'', PDatetime 300001000)]] \<and>
   files (snd (put (Bytes ''abc'') (running_buffer [live_item]))) ''/b/messages/u'' = Some ''abc'' \<and>
   fst (get (running_buffer [live_item])) = Returns live_item \<and>
   q (snd (get (running_buffer [live_item]))) = [] \<and>
   get (running_buffer [old_item]) =
     (Suspends WaitQueue,
      (running_buffer [])\<lparr>ticks := 1, manifest_dirty := True, manifest_clean := False\<rparr>) \<and>
   fst (put (Bytes ''abc'') (running_buffer []\<lparr>fault := (\<lambda>p. Some (WriteFault 1))\<rparr>)) =
     Raises OSError \<and>
   get (running_buffer [[(''path'', PStr ''/b/messages/new'')]]) =
     (Suspends WaitQueue,
      (running_buffer [])\<lparr>logged := [BadItem [(''path'', PStr ''/b/messages/new'')]],
                            manifest_dirty := True, manifest_clean := False\<rparr>)"
proof -
  let ?f = "running_buffer []\<lparr>fault := (\<lambda>p. Some (WriteFault 1))\<rparr>"
  let ?b = "running_buffer [[(''path'', PStr ''/b/messages/new'')]]"
  let ?l = "(running_buffer [])\<lparr>logged := [BadItem [(''path'', PStr ''/b/messages/new'')]],
                            manifest_dirty := True, manifest_clean := False\<rparr>"
  have g1: "ready ?f" "ready ?b" "ready ?l" "q ?l = []"
    "q ?b = [[(''path'', PStr ''/b/messages/new'')]]"
    by (simp_all add: running_buffer_def sample_buffer_def init_def)
  have g2: "fst (write_payload (path_join (message_path ?f) (uuids ?f (uuid_n ?f))) (Bytes ''abc'')
              (?f\<lparr>uuid_n := Suc (uuid_n ?f), ticks := Suc (ticks ?f)\<rparr>)) = Inl OSError"
    by (simp add: write_payload_def open_w_def file_write_def running_buffer_def
        sample_buffer_def init_def sample_world_def path_join_def dirname_def dir_exists_def)
  have g3: "getitem [(''path'', PStr ''/b/messages/new'')] ''expire_time'' = Inl KeyError"
    by (simp add: getitem_def)
  have g4: "?b\<lparr>logged := logged ?b @ [BadItem [(''path'', PStr ''/b/messages/new'')]], q := [],
               manifest_dirty := True, manifest_clean := False\<rparr> = ?l"
    by (simp add: running_buffer_def sample_buffer_def init_def sample_world_def)
  note f1 = readiness_gate [of ?f "Bytes ''abc''" OSError _ _ _ _ sample_codec]
  note f2 = readiness_gate [of ?b "Bytes ''abc''" _ "[(''path'', PStr ''/b/messages/new'')]" "[]" _
      KeyError sample_codec]
  note f3 = readiness_gate [of ?l "Bytes ''abc''" _ _ _ _ _ sample_codec]
  have c10: "fst (put (Bytes ''abc'') ?f) = Raises OSError" using f1 g1(1) g2 by blast
  have "get ?b = get (?b\<lparr>logged := logged ?b @ [BadItem [(''path'', PStr ''/b/messages/new'')]],
               q := [], manifest_dirty := True, manifest_clean := False\<rparr>)"
    using f2 g1(2,5) g3 by blast
  then have c11: "get ?b = get ?l" unfolding g4 .
  have c12: "get ?l = (Suspends WaitQueue, ?l)" using f3 g1(3,4) by blast
  let ?r = "running_buffer [live_item]"
  let ?o = "running_buffer [old_item]"
  let ?e = "(running_buffer [])\<lparr>ticks := 1, manifest_dirty := True, manifest_clean := False\<rparr>"
  have h1: "\<not> ready sample_buffer" by (simp add: sample_buffer_def init_def)
  have h2: "ready ?r" "ready ?o" "ready ?e" by (simp_all add: running_buffer_def)
  have h3: "fst (start_manifest sample_codec sample_buffer) = Returns ()"
    by (simp add: start_manifest_def makedirs_def ancestors_def mkdir_def dir_exists_def
        dirname_def upt_rec read_manifest_def file_read_def
        sample_buffer_def init_def sample_world_def path_join_def)
  have v: "message_path ?r = ''/b/messages''" "uuids ?r (uuid_n ?r) = ''u''"
    "clock ?r (ticks ?r) = 1000" "q ?r = [live_item]" "uuid_n ?r = 0" "ticks ?r = 0"
    "clock ?o (ticks ?o) = 1000" "q ?o = [old_item]" "ticks ?o = 0" "q ?e = []"
    by (simp_all add: running_buffer_def sample_buffer_def init_def sample_world_def path_join_def)
  have h4: "fst (write_payload (path_join (message_path ?r) (uuids ?r (uuid_n ?r))) (Bytes ''abc'')
              (?r\<lparr>uuid_n := Suc (uuid_n ?r), ticks := Suc (ticks ?r)\<rparr>)) = Inr ()"
    unfolding v
    by (simp add: write_payload_def open_w_def file_write_def running_buffer_def
        sample_buffer_def init_def sample_world_def path_join_def dirname_def dir_exists_def)
  have h5: "getitem live_item ''expire_time'' = Inr (PDatetime 5000)"
    "getitem old_item ''expire_time'' = Inr (PDatetime 5)"
    by (simp_all add: getitem_def live_item_def old_item_def)
  have oe: "?o\<lparr>ticks := Suc (ticks ?o), q := [], manifest_dirty := True, manifest_clean := False\<rparr> = ?e"
    by (simp add: running_buffer_def sample_buffer_def init_def sample_world_def)
  note a = readiness_gate [of sample_buffer "Bytes ''abc''" _ _ _ _ _ sample_codec]
  note b = readiness_gate [of ?r "Bytes ''abc''" _ live_item "[]" 5000 _ sample_codec]
  note c = readiness_gate [of ?o "Bytes ''abc''" _ old_item "[]" 5 _ sample_codec]
  note d = readiness_gate [of ?e "Bytes ''abc''" _ _ _ _ _ sample_codec]
  have c1: "put (Bytes ''abc'') sample_buffer = (Suspends WaitReady, sample_buffer)"
    and c2: "get sample_buffer = (Suspends WaitReady, sample_buffer)"
    and c3: "ready (snd (start_manifest sample_codec sample_buffer))"
    using a h1 h3 by blast+
  have c4: "fst (put (Bytes ''abc'') ?r) = Returns ()"
    and c5: "q (snd (put (Bytes ''abc'') ?r)) =
      q ?r @ [descriptor (message_path ?r) (uuids ?r (uuid_n ?r)) (clock ?r (ticks ?r))]"
    and c6: "files (snd (put (Bytes ''abc'') ?r)) (path_join (message_path ?r) (uuids ?r (uuid_n ?r))) =
      Some (frame_bytes (Bytes ''abc''))"
    using b h2(1) h4 by blast+
  have c7: "get ?r = (Returns live_item,
      ?r\<lparr>ticks := Suc (ticks ?r), q := [], manifest_dirty := True, manifest_clean := False\<rparr>)"
    using b h2(1) h5(1) v(3,4) by simp
  have c8: "get ?o = get ?e"
    using c h2(2) h5(2) v(7,8) oe by simp
  have c9: "get ?e = (Suspends WaitQueue, ?e)" using d h2(3) v(10) by blast
  show ?thesis
    using h1 h2(1) h3 c1 c2 c3 c4 c5 c6 c7 c8 c9 c10 c11 c12 v(1,2,3,4)
    by (simp add: descriptor_def path_join_def minutes_def)
qed




end
